theory Spec2Isabelle
  imports Main "HOL-Library.Sublist" "HOL-Library.AList"
begin

section \<open>Python values, dictionaries and errors\<close>

text \<open>
  The connector (\<^verbatim>\<open>tap_gitlab/client.py\<close>) handles configuration settings, partition
  contexts and records, all of them Python dictionaries with string keys whose values
  come from JSON. A dictionary keeps its keys in insertion order and the code iterates
  over \<^verbatim>\<open>items()\<close>, so a dictionary is an association list; \<open>map_of\<close> is the lookup
  and \<open>AList.update\<close> is \<^verbatim>\<open>d[k] = v\<close> (an existing key keeps its place, a new
  one goes to the end). Strings are byte strings in UTF-8. Floating-point numbers are
  left out of the value type.
\<close>

datatype pyval =
    PNone
  | PBool bool
  | PInt int
  | PStr string
  | PList "pyval list"
  | PDict "(string \<times> pyval) list"

type_synonym dict = "(string \<times> pyval) list"

text \<open>
  Every exception the code can raise is a value. The two \<^verbatim>\<open>ValueError\<close>s raised by
  the connector itself carry their message; \<open>LibraryError\<close> stands for whatever an
  external library function raises.
\<close>

datatype error =
    ValueError string
  | AttributeError
  | TypeError
  | KeyError
  | IndexError
  | AssertionError
  | LibraryError string

section \<open>Strings\<close>

text \<open>\<^verbatim>\<open>sub in s\<close> on strings: \<open>sub\<close> occurs in \<open>s\<close> as a contiguous substring.\<close>

fun str_contains :: "string \<Rightarrow> string \<Rightarrow> bool" where
  "str_contains sub [] = (sub = [])"
| "str_contains sub (c # cs) = (prefix sub (c # cs) \<or> str_contains sub cs)"

text \<open>
  \<^verbatim>\<open>s.replace(old, new)\<close>: the occurrences of \<open>old\<close> are replaced from the left and
  do not overlap. With an empty \<open>old\<close> Python puts \<open>new\<close> before every character and
  at the end.
\<close>

fun str_replace :: "string \<Rightarrow> string \<Rightarrow> string \<Rightarrow> string" where
  "str_replace [] old new = (if old = [] then new else [])"
| "str_replace (c # cs) old new =
     (if old = [] then new @ c # str_replace cs old new
      else if prefix old (c # cs) then new @ str_replace (drop (length old - 1) cs) old new
      else c # str_replace cs old new)"

text \<open>\<^verbatim>\<open>s.rstrip("/")\<close>.\<close>

definition rstrip_slash :: "string \<Rightarrow> string" where
  "rstrip_slash s = rev (dropWhile (\<lambda>c. c = CHR ''/'') (rev s))"

text \<open>
  \<^verbatim>\<open>s.split(sep)\<close> for a separator of one character: every occurrence of the
  separator ends a field, so that the result has one field more than \<open>s\<close> has
  separators (and \<^verbatim>\<open>"".split(" ")\<close> is \<^verbatim>\<open>[""]\<close>).
\<close>

fun str_split :: "char \<Rightarrow> string \<Rightarrow> string list" where
  "str_split sep [] = [ [] ]"
| "str_split sep (c # cs) =
     (if c = sep then [] # str_split sep cs
      else (case str_split sep cs of
              [] \<Rightarrow> [ [c] ]
            | w # ws \<Rightarrow> (c # w) # ws))"

text \<open>\<^verbatim>\<open>sep.join(xs)\<close>.\<close>

fun str_join :: "string \<Rightarrow> string list \<Rightarrow> string" where
  "str_join sep [] = []"
| "str_join sep [x] = x"
| "str_join sep (x # y # ys) = x @ sep @ str_join sep (y # ys)"

definition ascii_upper :: string where
  "ascii_upper = ''ABCDEFGHIJKLMNOPQRSTUVWXYZ''"

definition ascii_lower :: string where
  "ascii_lower = ''abcdefghijklmnopqrstuvwxyz''"

definition ascii_digits :: string where
  "ascii_digits = ''0123456789''"

text \<open>\<^verbatim>\<open>s.lower()\<close> on ASCII letters.\<close>

definition lower_char :: "char \<Rightarrow> char" where
  "lower_char c = (if c \<in> set ascii_upper then char_of (of_char c + (32::nat)) else c)"

definition str_lower :: "string \<Rightarrow> string" where
  "str_lower s = map lower_char s"

text \<open>The value of a hexadecimal digit, in either case.\<close>

definition hex_value :: "char \<Rightarrow> nat option" where
  "hex_value c =
     (if c \<in> set ascii_digits then Some (of_char c - 48)
      else if c \<in> set ''ABCDEF'' then Some (of_char c - 55)
      else if c \<in> set ''abcdef'' then Some (of_char c - 87)
      else None)"

definition hex_digit_upper :: "nat \<Rightarrow> char" where
  "hex_digit_upper n = ''0123456789ABCDEF'' ! (n mod 16)"

definition hex_digit_lower :: "nat \<Rightarrow> char" where
  "hex_digit_lower n = ''0123456789abcdef'' ! (n mod 16)"

section \<open>Numbers and strings as text\<close>

text \<open>\<^verbatim>\<open>str(i)\<close> of an integer: its decimal digits, with a sign when negative.\<close>

fun nat_digits :: "nat \<Rightarrow> string" where
  "nat_digits n =
     (if n < 10 then [ascii_digits ! n]
      else nat_digits (n div 10) @ [ascii_digits ! (n mod 10)])"

definition int_str :: "int \<Rightarrow> string" where
  "int_str i = (if i < 0 then CHR ''-'' # nat_digits (nat (- i)) else nat_digits (nat i))"

text \<open>
  \<^verbatim>\<open>repr(s)\<close> of a string: in single quotes, or in double quotes when the string has
  a single quote and no double quote; the quote, the backslash and the control
  characters are escaped. (Bytes above 127 are kept: Python escapes the few code
  points above 127 that are not printable.)
\<close>

definition repr_char :: "char \<Rightarrow> char \<Rightarrow> string" where
  "repr_char q c =
     (if c = q \<or> c = CHR 0x5C then [CHR 0x5C, c]
      else if c = CHR 0x09 then [CHR 0x5C, CHR ''t'']
      else if c = CHR 0x0A then [CHR 0x5C, CHR ''n'']
      else if c = CHR 0x0D then [CHR 0x5C, CHR ''r'']
      else if (of_char c :: nat) < 32 \<or> (of_char c :: nat) = 127
        then [CHR 0x5C, CHR ''x'', hex_digit_lower (of_char c div 16), hex_digit_lower (of_char c mod 16)]
      else [c])"

definition repr_str :: "string \<Rightarrow> string" where
  "repr_str s =
     (let q = (if CHR 0x27 \<in> set s \<and> CHR 0x22 \<notin> set s then CHR 0x22 else CHR 0x27)
      in q # concat (map (repr_char q) s) @ [q])"

section \<open>Library functions of \<^verbatim>\<open>urllib.parse\<close>\<close>

text \<open>
  \<^verbatim>\<open>quote_plus(s)\<close> with its default arguments: the bytes of \<open>s\<close> that are letters,
  digits or one of \<^verbatim>\<open>_.-~\<close> stay, a space becomes \<^verbatim>\<open>+\<close>, and every other byte
  becomes \<^verbatim>\<open>%XX\<close> with upper-case hexadecimal digits.
\<close>

definition always_safe :: string where
  "always_safe = ascii_upper @ ascii_lower @ ascii_digits @ ''_.-~''"

definition quote_byte :: "char \<Rightarrow> string" where
  "quote_byte c =
     (if c \<in> set always_safe then [c]
      else if c = CHR '' '' then ''+''
      else [CHR ''%'', hex_digit_upper (of_char c div 16), hex_digit_upper (of_char c mod 16)])"

definition quote_plus :: "string \<Rightarrow> string" where
  "quote_plus s = concat (map quote_byte s)"

text \<open>
  \<^verbatim>\<open>unquote(s)\<close>: \<^verbatim>\<open>%XX\<close> with two hexadecimal digits becomes the byte, any other
  \<^verbatim>\<open>%\<close> stays. (Python decodes the resulting bytes as UTF-8 and replaces an invalid
  sequence by U+FFFD; the model keeps the bytes, which is the same for valid UTF-8.)
\<close>

fun unquote :: "string \<Rightarrow> string" where
  "unquote [] = []"
| "unquote [c] = [c]"
| "unquote [c, d] = [c, d]"
| "unquote (c # a # b # rest) =
     (if c = CHR ''%'' then
        (case (hex_value a, hex_value b) of
           (Some h, Some l) \<Rightarrow> char_of (16 * h + l) # unquote rest
         | _ \<Rightarrow> c # unquote (a # b # rest))
      else c # unquote (a # b # rest))"

text \<open>\<^verbatim>\<open>unquote_plus(s)\<close> is \<^verbatim>\<open>unquote(s.replace("+", " "))\<close>.\<close>

definition unquote_plus :: "string \<Rightarrow> string" where
  "unquote_plus s = unquote (str_replace s ''+'' '' '')"

text \<open>\<^verbatim>\<open>name, has_eq, value = s.partition("=")\<close>: the text before and after the first
  \<^verbatim>\<open>=\<close>; without one the value is empty.\<close>

definition partition_eq :: "string \<Rightarrow> string \<times> string" where
  "partition_eq s =
     (takeWhile (\<lambda>c. c \<noteq> CHR ''='') s, drop 1 (dropWhile (\<lambda>c. c \<noteq> CHR ''='') s))"

text \<open>
  \<^verbatim>\<open>parse_qsl(qs)\<close> with its default arguments (blank values dropped, no strict
  parsing, separator \<^verbatim>\<open>&\<close>).
\<close>

definition parse_qsl :: "string \<Rightarrow> (string \<times> string) list" where
  "parse_qsl qs =
     (if qs = [] then []
      else concat (map (\<lambda>name_value.
             (let (name, val) = partition_eq name_value
              in if name_value \<noteq> [] \<and> val \<noteq> [] then [(unquote_plus name, unquote_plus val)]
                 else []))
           (str_split CHR ''&'' qs)))"

text \<open>
  \<^verbatim>\<open>parse_qs(qs)\<close>: the dictionary from each name to the list of its values, in the
  order of their occurrence.
\<close>

definition parse_qs_add :: "string \<times> string \<Rightarrow> (string \<times> string list) list \<Rightarrow> (string \<times> string list) list" where
  "parse_qs_add nv parsed_result =
     (case map_of parsed_result (fst nv) of
        Some vs \<Rightarrow> AList.update (fst nv) (vs @ [snd nv]) parsed_result
      | None \<Rightarrow> AList.update (fst nv) [snd nv] parsed_result)"

definition parse_qs :: "string \<Rightarrow> (string \<times> string list) list" where
  "parse_qs qs = fold parse_qs_add (parse_qsl qs) []"

text \<open>
  The checks of a host in brackets, as \<^verbatim>\<open>urlsplit\<close> of CPython 3.11 makes them
  with \<^verbatim>\<open>ipaddress.ip_address\<close>: an IPv4 address is four decimal octets up to 255
  without leading zeros; an IPv6 address is up to eight groups of one to four
  hexadecimal digits, with at most one \<^verbatim>\<open>::\<close> for a run of zero groups, possibly an
  IPv4 address in the place of the last two groups, and possibly a scope after
  \<^verbatim>\<open>%\<close>.
\<close>

definition is_hex_digit :: "char \<Rightarrow> bool" where
  "is_hex_digit c = (c \<in> set ''0123456789ABCDEFabcdef'')"

definition decimal_value :: "string \<Rightarrow> nat" where
  "decimal_value s = foldl (\<lambda>n c. 10 * n + (of_char c - 48)) 0 s"

definition parse_octet_ok :: "string \<Rightarrow> bool" where
  "parse_octet_ok octet_str =
     (octet_str \<noteq> [] \<and> list_all (\<lambda>c. c \<in> set ascii_digits) octet_str \<and> length octet_str \<le> 3
      \<and> \<not> (octet_str \<noteq> ''0'' \<and> hd octet_str = CHR ''0'') \<and> decimal_value octet_str \<le> 255)"

definition ipv4_address_ok :: "string \<Rightarrow> bool" where
  "ipv4_address_ok addr_str =
     (CHR ''/'' \<notin> set addr_str \<and> addr_str \<noteq> []
      \<and> length (str_split CHR ''.'' addr_str) = 4
      \<and> list_all parse_octet_ok (str_split CHR ''.'' addr_str))"

definition parse_hextet_ok :: "string \<Rightarrow> bool" where
  "parse_hextet_ok hextet_str =
     (list_all is_hex_digit hextet_str \<and> length hextet_str \<le> 4 \<and> hextet_str \<noteq> [])"

text \<open>
  The groups of an IPv6 address, split at the colons. An empty group that is neither
  the first nor the last marks the \<^verbatim>\<open>::\<close>; \<open>parts_hi\<close> groups before it and
  \<open>parts_lo\<close> groups after it are read, and at least one group is skipped.
\<close>

definition ipv6_parts_ok :: "string list \<Rightarrow> bool" where
  "ipv6_parts_ok parts =
     (length parts \<le> 9 \<and>
      (case filter (\<lambda>i. parts ! i = []) [1 ..< length parts - 1] of
         [] \<Rightarrow> length parts = 8 \<and> hd parts \<noteq> [] \<and> last parts \<noteq> []
               \<and> list_all parse_hextet_ok parts
       | [skip_index] \<Rightarrow>
           (let parts_hi = (if hd parts = [] then skip_index - 1 else skip_index);
                parts_lo = (if last parts = [] then length parts - skip_index - 1 - 1
                            else length parts - skip_index - 1)
            in (hd parts = [] \<longrightarrow> parts_hi = 0) \<and> (last parts = [] \<longrightarrow> parts_lo = 0)
               \<and> parts_hi + parts_lo \<le> 7
               \<and> list_all parse_hextet_ok (take parts_hi parts)
               \<and> list_all parse_hextet_ok (drop (length parts - parts_lo) parts))
       | _ \<Rightarrow> False))"

text \<open>
  An IPv4 address at the end stands for two groups; whatever they are, they are read
  without an error, so \<^verbatim>\<open>0\<close> takes their place here.
\<close>

definition ipv6_address_ok :: "string \<Rightarrow> bool" where
  "ipv6_address_ok addr_str =
     (CHR ''/'' \<notin> set addr_str \<and>
      (let ip_str = takeWhile (\<lambda>c. c \<noteq> CHR ''%'') addr_str;
           scope = dropWhile (\<lambda>c. c \<noteq> CHR ''%'') addr_str;
           parts = str_split CHR '':'' ip_str
       in (scope \<noteq> [] \<longrightarrow> drop 1 scope \<noteq> [] \<and> CHR ''%'' \<notin> set (drop 1 scope))
          \<and> ip_str \<noteq> [] \<and> 3 \<le> length parts
          \<and> (if CHR ''.'' \<in> set (last parts)
              then ipv4_address_ok (last parts) \<and> ipv6_parts_ok (butlast parts @ [''0'', ''0''])
              else ipv6_parts_ok parts)))"

text \<open>
  \<^verbatim>\<open>_check_bracketed_host(hostname)\<close>: a host that starts with \<^verbatim>\<open>v\<close> has to be
  \<^verbatim>\<open>v\<close>, hexadecimal digits, a dot and more text; any other host has to be an IPv6
  address. \<open>None\<close> is the check passed.
\<close>

definition check_bracketed_host :: "string \<Rightarrow> error option" where
  "check_bracketed_host hostname =
     (if take 1 hostname = ''v'' then
        (if takeWhile is_hex_digit (drop 1 hostname) \<noteq> []
            \<and> take 1 (dropWhile is_hex_digit (drop 1 hostname)) = ''.''
            \<and> drop 1 (dropWhile is_hex_digit (drop 1 hostname)) \<noteq> []
         then None
         else Some (ValueError ''IPvFuture address is invalid''))
      else if ipv4_address_ok hostname then Some (ValueError ''An IPv4 address cannot be in brackets'')
      else if ipv6_address_ok hostname then None
      else Some (ValueError (repr_str hostname @ '' does not appear to be an IPv4 or IPv6 address'')))"

text \<open>
  \<^verbatim>\<open>_checknetloc(netloc)\<close>: a network location with a byte above 127 must not gain
  one of \<^verbatim>\<open>/?#@:\<close> under the Unicode normalisation NFKC. The normalisation,
  \<^verbatim>\<open>unicodedata.normalize("NFKC", s)\<close>, rests on the tables of Unicode and is an
  argument here.
\<close>

definition checknetloc :: "(string \<Rightarrow> string) \<Rightarrow> string \<Rightarrow> error option" where
  "checknetloc nfkc loc =
     (if loc = [] \<or> list_all (\<lambda>c. (of_char c :: nat) < 128) loc then None
      else (let n = filter (\<lambda>c. c \<notin> set ''@:#?'') loc;
                netloc2 = nfkc n
            in if n = netloc2 then None
               else if \<exists>c \<in> set ''/?#@:''. c \<in> set netloc2
                 then Some (ValueError (''netloc '' @ [CHR 0x27] @ loc @ [CHR 0x27]
                        @ '' contains invalid characters under NFKC normalization''))
               else None))"

text \<open>
  \<^verbatim>\<open>urlsplit(url)\<close> and \<^verbatim>\<open>urlparse(url)\<close> as in CPython 3.11: leading control
  characters and spaces are dropped, tabs and line breaks are removed, then the scheme,
  the network location, the fragment and the query are split off in this order;
  \<^verbatim>\<open>urlparse\<close> also splits the parameters off the last path segment. A network
  location with only one of \<^verbatim>\<open>[\<close> and \<^verbatim>\<open>]\<close>, with a host in brackets that fails its
  check, or that fails the check under NFKC raises \<^verbatim>\<open>ValueError\<close>.
\<close>

record split_result =
  url_scheme :: string
  url_netloc :: string
  url_path :: string
  url_query :: string
  url_fragment :: string

definition scheme_chars :: string where
  "scheme_chars = ascii_lower @ ascii_upper @ ascii_digits @ ''+-.''"

definition split_scheme :: "string \<Rightarrow> string \<times> string" where
  "split_scheme url =
     (let pre = takeWhile (\<lambda>c. c \<noteq> CHR '':'') url
      in if CHR '':'' \<in> set url \<and> pre \<noteq> [] \<and> hd url \<in> set (ascii_lower @ ascii_upper)
            \<and> (\<forall>c \<in> set pre. c \<in> set scheme_chars)
         then (str_lower pre, drop 1 (dropWhile (\<lambda>c. c \<noteq> CHR '':'') url))
         else ([], url))"

definition is_netloc_delim :: "char \<Rightarrow> bool" where
  "is_netloc_delim c = (c = CHR ''/'' \<or> c = CHR ''?'' \<or> c = CHR ''#'')"

definition split_at_char :: "char \<Rightarrow> string \<Rightarrow> string \<times> string" where
  "split_at_char d s = (takeWhile (\<lambda>c. c \<noteq> d) s, drop 1 (dropWhile (\<lambda>c. c \<noteq> d) s))"

definition bracketed_host :: "string \<Rightarrow> string" where
  "bracketed_host loc = takeWhile (\<lambda>c. c \<noteq> CHR '']'') (drop 1 (dropWhile (\<lambda>c. c \<noteq> CHR ''['') loc))"

definition urlsplit :: "(string \<Rightarrow> string) \<Rightarrow> string \<Rightarrow> error + split_result" where
  "urlsplit nfkc url0 =
     (let url1 = dropWhile (\<lambda>c. (of_char c :: nat) \<le> 32) url0;
          url2 = filter (\<lambda>c. c \<noteq> CHR 0x09 \<and> c \<noteq> CHR 0x0D \<and> c \<noteq> CHR 0x0A) url1;
          (sch, url3) = split_scheme url2;
          (loc, url4) = (if take 2 url3 = ''//''
                         then (takeWhile (\<lambda>c. \<not> is_netloc_delim c) (drop 2 url3),
                               dropWhile (\<lambda>c. \<not> is_netloc_delim c) (drop 2 url3))
                         else ([], url3));
          (url5, frag) = split_at_char CHR ''#'' url4;
          (url6, qry) = split_at_char CHR ''?'' url5
      in if (CHR ''['' \<in> set loc \<and> CHR '']'' \<notin> set loc) \<or> (CHR '']'' \<in> set loc \<and> CHR ''['' \<notin> set loc)
         then Inl (ValueError ''Invalid IPv6 URL'')
         else (case (if CHR ''['' \<in> set loc \<and> CHR '']'' \<in> set loc
                     then check_bracketed_host (bracketed_host loc) else None) of
                 Some e \<Rightarrow> Inl e
               | None \<Rightarrow>
                   (case checknetloc nfkc loc of
                      Some e \<Rightarrow> Inl e
                    | None \<Rightarrow> Inr \<lparr>url_scheme = sch, url_netloc = loc, url_path = url6,
                                    url_query = qry, url_fragment = frag\<rparr>)))"

definition uses_params :: "string list" where
  "uses_params = ['''', ''ftp'', ''hdl'', ''prospero'', ''http'', ''imap'', ''https'', ''shttp'',
                  ''rtsp'', ''rtspu'', ''sip'', ''sips'', ''mms'', ''sftp'', ''tel'']"

text \<open>\<^verbatim>\<open>_splitparams(url)[0]\<close>: the path without the parameters of its last segment.\<close>

definition splitparams_path :: "string \<Rightarrow> string" where
  "splitparams_path url =
     (if CHR ''/'' \<in> set url then
        (let seg = rev (takeWhile (\<lambda>c. c \<noteq> CHR ''/'') (rev url));
             pre = rev (dropWhile (\<lambda>c. c \<noteq> CHR ''/'') (rev url))
         in if CHR '';'' \<in> set seg then pre @ takeWhile (\<lambda>c. c \<noteq> CHR '';'') seg else url)
      else takeWhile (\<lambda>c. c \<noteq> CHR '';'') url)"

definition urlparse :: "(string \<Rightarrow> string) \<Rightarrow> string \<Rightarrow> error + split_result" where
  "urlparse nfkc url =
     (case urlsplit nfkc url of
        Inl e \<Rightarrow> Inl e
      | Inr r \<Rightarrow>
          if url_scheme r \<in> set uses_params \<and> CHR '';'' \<in> set (url_path r)
          then Inr (r\<lparr>url_path := splitparams_path (url_path r)\<rparr>)
          else Inr r)"

section \<open>Built-in conversions and operators\<close>

fun py_repr :: "pyval \<Rightarrow> string" where
  "py_repr PNone = ''None''"
| "py_repr (PBool b) = (if b then ''True'' else ''False'')"
| "py_repr (PInt i) = int_str i"
| "py_repr (PStr s) = repr_str s"
| "py_repr (PList xs) = ''['' @ str_join '', '' (map py_repr xs) @ '']''"
| "py_repr (PDict kvs) =
     ''{'' @ str_join '', '' (map (\<lambda>kv. repr_str (fst kv) @ '': '' @ py_repr (snd kv)) kvs) @ ''}''"

text \<open>\<^verbatim>\<open>str(val)\<close>: a string is itself, every other value is its \<^verbatim>\<open>repr\<close>.\<close>

definition py_str :: "pyval \<Rightarrow> string" where
  "py_str val = (case val of PStr s \<Rightarrow> s | _ \<Rightarrow> py_repr val)"

text \<open>\<^verbatim>\<open>len(v)\<close>.\<close>

definition py_len :: "pyval \<Rightarrow> error + nat" where
  "py_len v =
     (case v of
        PList xs \<Rightarrow> Inr (length xs)
      | PDict kvs \<Rightarrow> Inr (length kvs)
      | PStr s \<Rightarrow> Inr (length s)
      | _ \<Rightarrow> Inl TypeError)"

text \<open>\<^verbatim>\<open>v[-1]\<close>: the last item of a list or string; a dictionary with string keys has
  no key \<^verbatim>\<open>-1\<close>.\<close>

definition py_getitem_last :: "pyval \<Rightarrow> error + pyval" where
  "py_getitem_last v =
     (case v of
        PList xs \<Rightarrow> (if xs = [] then Inl IndexError else Inr (last xs))
      | PStr s \<Rightarrow> (if s = [] then Inl IndexError else Inr (PStr [last s]))
      | PDict kvs \<Rightarrow> Inl KeyError
      | _ \<Rightarrow> Inl TypeError)"

text \<open>\<^verbatim>\<open>v[key]\<close> where \<open>key\<close> is a string or \<^verbatim>\<open>None\<close>.\<close>

definition py_getitem_key :: "pyval \<Rightarrow> string option \<Rightarrow> error + pyval" where
  "py_getitem_key v key =
     (case v of
        PDict kvs \<Rightarrow>
          (case key of
             None \<Rightarrow> Inl KeyError
           | Some k \<Rightarrow> (case map_of kvs k of None \<Rightarrow> Inl KeyError | Some x \<Rightarrow> Inr x))
      | _ \<Rightarrow> Inl TypeError)"

text \<open>\<^verbatim>\<open>key in v\<close> for a string \<open>key\<close>.\<close>

definition py_contains :: "string \<Rightarrow> pyval \<Rightarrow> error + bool" where
  "py_contains key v =
     (case v of
        PDict kvs \<Rightarrow> Inr (key \<in> fst ` set kvs)
      | PList xs \<Rightarrow> Inr (PStr key \<in> set xs)
      | PStr s \<Rightarrow> Inr (str_contains key s)
      | _ \<Rightarrow> Inl TypeError)"

text \<open>\<^verbatim>\<open>vals.update(other)\<close>: the items of \<open>other\<close> are stored one after the other.\<close>

definition dict_update :: "dict \<Rightarrow> dict \<Rightarrow> dict" where
  "dict_update vals other = fold (\<lambda>kv d. AList.update (fst kv) (snd kv) d) other vals"

text \<open>
  A \<^verbatim>\<open>datetime\<close> is its wall-clock time in microseconds and, when it is aware, its
  offset from UTC. \<^verbatim>\<open>a < b\<close> compares two naive values by their wall clock and two
  aware values by their instant in UTC; a naive and an aware value do not compare.
\<close>

record datetime =
  wall_clock :: int
  utcoffset :: "int option"

definition datetime_less :: "datetime \<Rightarrow> datetime \<Rightarrow> error + bool" where
  "datetime_less a b =
     (case (utcoffset a, utcoffset b) of
        (None, None) \<Rightarrow> Inr (wall_clock a < wall_clock b)
      | (Some oa, Some ob) \<Rightarrow> Inr (wall_clock a - oa < wall_clock b - ob)
      | _ \<Rightarrow> Inl TypeError)"

section \<open>Streams and responses\<close>

text \<open>
  The attributes of a stream that the code reads. \<open>path\<close>, \<open>replication_key\<close>
  and \<open>extra_url_params\<close> may be \<^verbatim>\<open>None\<close>; \<open>bookmark_param_name\<close> is
  \<^verbatim>\<open>"since"\<close> unless a stream overrides it.
\<close>

record stream =
  name :: string
  path :: "string option"
  replication_key :: "string option"
  bookmark_param_name :: string
  extra_url_params :: "dict option"
  config :: dict
  schema :: dict

text \<open>
  What the code reads of a \<^verbatim>\<open>requests.Response\<close>: the headers (a case-insensitive
  dictionary: each name with its value, no two names equal up to case), the URL of the
  request that was sent, and the result of \<^verbatim>\<open>response.json()\<close>.
\<close>

record response =
  headers :: "(string \<times> string) list"
  request_url :: string
  json :: "error + pyval"

text \<open>\<^verbatim>\<open>headers.get(name, None)\<close> on the case-insensitive dictionary.\<close>

definition headers_get :: "(string \<times> string) list \<Rightarrow> string \<Rightarrow> string option" where
  "headers_get hs key = map_of (map (\<lambda>kv. (str_lower (fst kv), snd kv)) hs) (str_lower key)"

section \<open>\<^verbatim>\<open>GitLabStream\<close>\<close>

definition DEFAULT_REST_API_URL :: string where
  "DEFAULT_REST_API_URL = ''https://gitlab.com/api/v4''"

text \<open>
  \<^verbatim>\<open>url_base\<close>: the configured \<^verbatim>\<open>api_url\<close> (or the default) without its trailing
  slashes, with \<^verbatim>\<open>/api/v4\<close> appended when \<^verbatim>\<open>urlparse\<close> finds no path in it. A
  setting that is not a string has no \<^verbatim>\<open>rstrip\<close>.
\<close>

definition url_base :: "(string \<Rightarrow> string) \<Rightarrow> stream \<Rightarrow> error + string" where
  "url_base nfkc self =
     (case (case map_of (config self) ''api_url'' of None \<Rightarrow> PStr DEFAULT_REST_API_URL | Some v \<Rightarrow> v) of
        PStr s \<Rightarrow>
          (let result = rstrip_slash s
           in case urlparse nfkc result of
                Inl e \<Rightarrow> Inl e
              | Inr r \<Rightarrow> if url_path r = [] then Inr (result @ ''/api/v4'') else Inr result)
      | _ \<Rightarrow> Inl AttributeError)"

text \<open>
  \<^verbatim>\<open>get_url_params\<close>. Whether the replication key is a timestamp and what the
  starting timestamp is are the framework's to say; they are arguments here. A token or
  a replication key counts when it is neither \<^verbatim>\<open>None\<close> nor empty.
\<close>

definition truthy :: "string option \<Rightarrow> bool" where
  "truthy t = (case t of None \<Rightarrow> False | Some s \<Rightarrow> s \<noteq> [])"

definition get_url_params :: "bool \<Rightarrow> pyval \<Rightarrow> stream \<Rightarrow> string option \<Rightarrow> dict" where
  "get_url_params is_timestamp_replication_key starting_timestamp self next_page_token =
     (let params0 = (case extra_url_params self of None \<Rightarrow> [] | Some d \<Rightarrow> d);
          params1 = (case next_page_token of
                       None \<Rightarrow> params0
                     | Some t \<Rightarrow> if truthy (Some t) then AList.update ''page'' (PStr t) params0
                                else params0)
      in case replication_key self of
           None \<Rightarrow> params1
         | Some k \<Rightarrow>
             if truthy (Some k) then
               (let params2 = AList.update ''sort'' (PStr ''asc'') params1;
                    params3 = AList.update ''order_by'' (PStr k) params2
                in if is_timestamp_replication_key
                   then AList.update (bookmark_param_name self) starting_timestamp params3
                   else params3)
             else params1)"

text \<open>\<^verbatim>\<open>get_next_page_token\<close> of \<^verbatim>\<open>GitLabStream\<close>: the \<^verbatim>\<open>X-Next-Page\<close> header.\<close>

definition get_next_page_token :: "stream \<Rightarrow> response \<Rightarrow> string option \<Rightarrow> string option" where
  "get_next_page_token self resp previous_token = headers_get (headers resp) ''X-Next-Page''"

definition url_encode :: "pyval \<Rightarrow> string" where
  "url_encode val = quote_plus (py_str val)"

text \<open>
  \<^verbatim>\<open>get_url\<close>: the loop over the items of the merged dictionary, then the method.
  The debug message for \<^verbatim>\<open>{project_path}\<close> changes nothing and is left out.
\<close>

fun get_url_loop :: "dict \<Rightarrow> string \<Rightarrow> string" where
  "get_url_loop [] url = url"
| "get_url_loop ((key, val) # items) url =
     (let search_text = concat [''{'', key, ''}'']
      in if str_contains search_text url
         then get_url_loop items (str_replace url search_text (url_encode val))
         else get_url_loop items url)"

definition get_url :: "(string \<Rightarrow> string) \<Rightarrow> stream \<Rightarrow> dict option \<Rightarrow> error + string" where
  "get_url nfkc self context =
     (case url_base nfkc self of
        Inl e \<Rightarrow> Inl e
      | Inr base \<Rightarrow>
          (let url = concat [base, (case path self of None \<Rightarrow> [] | Some p \<Rightarrow> p)];
               vals = dict_update (config self) (case context of None \<Rightarrow> [] | Some c \<Rightarrow> c)
           in Inr (get_url_loop vals url)))"

text \<open>
  \<^verbatim>\<open>post_process\<close>. The framework's \<^verbatim>\<open>post_process\<close>, called through
  \<^verbatim>\<open>super()\<close>, is an argument. The loop stores a context value under its key when
  the key is among the schema's properties and not yet in the result.
\<close>

definition schema_properties :: "dict \<Rightarrow> pyval" where
  "schema_properties sch = (case map_of sch ''properties'' of None \<Rightarrow> PDict [] | Some p \<Rightarrow> p)"

fun post_process_loop :: "dict \<Rightarrow> dict \<Rightarrow> dict \<Rightarrow> error + dict" where
  "post_process_loop sch [] result = Inr result"
| "post_process_loop sch ((key, val) # items) result =
     (case py_contains key (schema_properties sch) of
        Inl e \<Rightarrow> Inl e
      | Inr declared \<Rightarrow>
          if declared \<and> key \<notin> fst ` set result
          then post_process_loop sch items (AList.update key val result)
          else post_process_loop sch items result)"

definition post_process ::
  "(dict \<Rightarrow> dict option \<Rightarrow> dict option) \<Rightarrow> stream \<Rightarrow> dict \<Rightarrow> dict option \<Rightarrow> error + dict option" where
  "post_process super_post_process self row context =
     (case super_post_process row context of
        None \<Rightarrow> Inr None
      | Some result \<Rightarrow>
          (case context of
             None \<Rightarrow> Inl AssertionError
           | Some c \<Rightarrow>
               (case post_process_loop (schema self) c result of
                  Inl e \<Rightarrow> Inl e
                | Inr result' \<Rightarrow> Inr (Some result'))))"

section \<open>\<^verbatim>\<open>NoSinceProjectBasedStream\<close>\<close>

text \<open>
  The cutoff: the first value of the bookmark parameter among the parsed query
  parameters, with every space turned back into \<^verbatim>\<open>+\<close>; \<^verbatim>\<open>None\<close> when the
  parameter is not there, and when it has an empty list of values (the
  \<^verbatim>\<open>IndexError\<close> that the code catches).
\<close>

definition cutoff_of :: "string \<Rightarrow> (string \<times> string list) list \<Rightarrow> string option" where
  "cutoff_of bookmark request_parameters =
     (case map_of request_parameters bookmark of
        None \<Rightarrow> None
      | Some [] \<Rightarrow> None
      | Some (v # vs) \<Rightarrow> Some (str_replace v '' '' ''+''))"

text \<open>
  \<^verbatim>\<open>get_next_page_token\<close> of \<^verbatim>\<open>NoSinceProjectBasedStream\<close>. \<^verbatim>\<open>dateutil\<close>'s
  \<^verbatim>\<open>parse\<close> is an argument: from a value to a \<^verbatim>\<open>datetime\<close>, or an error.
\<close>

definition no_since_decision ::
  "(pyval \<Rightarrow> error + datetime) \<Rightarrow> stream \<Rightarrow> response \<Rightarrow> string option \<Rightarrow> string \<Rightarrow> error + string option" where
  "no_since_decision parse self resp previous_token cutoff =
     (case json resp of
        Inl e \<Rightarrow> Inl e
      | Inr results \<Rightarrow>
          (case py_len results of
             Inl e \<Rightarrow> Inl e
           | Inr n \<Rightarrow>
               if n = 0 then Inr None
               else (case py_getitem_last results of
                       Inl e \<Rightarrow> Inl e
                     | Inr item \<Rightarrow>
                         (case py_getitem_key item (replication_key self) of
                            Inl e \<Rightarrow> Inl e
                          | Inr v \<Rightarrow>
                              (case parse v of
                                 Inl e \<Rightarrow> Inl e
                               | Inr t_last \<Rightarrow>
                                   (case parse (PStr cutoff) of
                                      Inl e \<Rightarrow> Inl e
                                    | Inr t_cutoff \<Rightarrow>
                                        (case datetime_less t_last t_cutoff of
                                           Inl e \<Rightarrow> Inl e
                                         | Inr earlier \<Rightarrow>
                                             if earlier then Inr None
                                             else Inr (get_next_page_token self resp previous_token))))))))"

definition no_since_get_next_page_token ::
  "(string \<Rightarrow> string) \<Rightarrow> (pyval \<Rightarrow> error + datetime) \<Rightarrow> stream \<Rightarrow> response \<Rightarrow> string option
     \<Rightarrow> error + string option" where
  "no_since_get_next_page_token nfkc parse self resp previous_token =
     (case urlparse nfkc (request_url resp) of
        Inl e \<Rightarrow> Inl e
      | Inr u \<Rightarrow>
          (let request_parameters = parse_qs (url_query u)
           in case cutoff_of (bookmark_param_name self) request_parameters of
                None \<Rightarrow> Inr (get_next_page_token self resp previous_token)
              | Some cutoff \<Rightarrow> no_since_decision parse self resp previous_token cutoff))"

section \<open>\<^verbatim>\<open>GroupBasedStream\<close>\<close>

definition missing_groups_message :: "string \<Rightarrow> string" where
  "missing_groups_message n =
     ''Missing `groups` setting which is required for the '' @ [CHR 0x27] @ n @ [CHR 0x27] @ '' stream.''"

definition no_partition_type_message :: "string \<Rightarrow> string \<Rightarrow> string" where
  "no_partition_type_message n p =
     ''Could not detect partition type for Gitlab stream '' @ [CHR 0x27] @ n @ [CHR 0x27]
     @ '' ('' @ p @ ''). Expected a URL path containing '' @ [CHR 0x27] @ ''{project_path}''
     @ [CHR 0x27] @ '' or '' @ [CHR 0x27] @ ''{group_id}'' @ [CHR 0x27] @ ''. ''"

text \<open>
  \<^verbatim>\<open>partitions\<close>: one context per field of the \<^verbatim>\<open>groups\<close> setting split at every
  space. \<^verbatim>\<open>in\<close> on a path that is \<^verbatim>\<open>None\<close> is a \<^verbatim>\<open>TypeError\<close>, and a
  \<^verbatim>\<open>groups\<close> setting that is not a string has no \<^verbatim>\<open>split\<close>.
\<close>

definition partitions :: "stream \<Rightarrow> error + dict list" where
  "partitions self =
     (case path self of
        None \<Rightarrow> Inl TypeError
      | Some p \<Rightarrow>
          if str_contains ''{group_id}'' p then
            (case map_of (config self) ''groups'' of
               None \<Rightarrow> Inl (ValueError (missing_groups_message (name self)))
             | Some (PStr s) \<Rightarrow> Inr (map (\<lambda>id. [(''group_id'', PStr id)]) (str_split CHR '' '' s))
             | Some _ \<Rightarrow> Inl AttributeError)
          else Inl (ValueError (no_partition_type_message (name self) p)))"

section \<open>What the specification says, as definitions\<close>

text \<open>
  A path template in the specification's sense: literal text and placeholders
  \<^verbatim>\<open>{name}\<close>. \<open>render\<close> is the text of the template; \<open>fill\<close> is the specified
  result of the URL resolver for a lookup \<open>m\<close>: a placeholder with a key in \<open>m\<close> is
  replaced by its URL-encoded value, and any other placeholder stays as it is written.
\<close>

datatype segment = Lit string | Hole string

definition render_segment :: "segment \<Rightarrow> string" where
  "render_segment seg = (case seg of Lit s \<Rightarrow> s | Hole n \<Rightarrow> ''{'' @ n @ ''}'')"

definition render :: "segment list \<Rightarrow> string" where
  "render segs = concat (map render_segment segs)"

definition fill_segment :: "(string \<rightharpoonup> pyval) \<Rightarrow> segment \<Rightarrow> string" where
  "fill_segment m seg =
     (case seg of
        Lit s \<Rightarrow> s
      | Hole n \<Rightarrow> (case m n of Some v \<Rightarrow> url_encode v | None \<Rightarrow> ''{'' @ n @ ''}''))"

definition fill :: "(string \<rightharpoonup> pyval) \<Rightarrow> segment list \<Rightarrow> string" where
  "fill m segs = concat (map (fill_segment m) segs)"

text \<open>
  A template is flat when no literal text opens a brace and no placeholder name has a
  brace: then its placeholders are exactly the \<^verbatim>\<open>{\<close> \<open>\<dots>\<close> \<^verbatim>\<open>}\<close> groups of its text,
  none inside another.
\<close>

definition brace_free :: "string \<Rightarrow> bool" where
  "brace_free s = (CHR ''{'' \<notin> set s \<and> CHR ''}'' \<notin> set s)"

definition flat_segment :: "segment \<Rightarrow> bool" where
  "flat_segment seg = (case seg of Lit s \<Rightarrow> CHR ''{'' \<notin> set s | Hole n \<Rightarrow> brace_free n)"

definition flat_template :: "segment list \<Rightarrow> bool" where
  "flat_template segs = list_all flat_segment segs"

text \<open>
  A whitespace-separated list, as \<^verbatim>\<open>str.split()\<close> without a separator reads it: the
  identifiers are the maximal runs of characters that are not whitespace.
\<close>

definition is_whitespace :: "char \<Rightarrow> bool" where
  "is_whitespace c = (c \<in> set [CHR '' '', CHR 0x09, CHR 0x0A, CHR 0x0B, CHR 0x0C, CHR 0x0D])"

function split_whitespace :: "string \<Rightarrow> string list" where
  "split_whitespace [] = []"
| "split_whitespace (c # cs) =
     (if is_whitespace c then split_whitespace cs
      else (c # takeWhile (\<lambda>d. \<not> is_whitespace d) cs)
           # split_whitespace (dropWhile (\<lambda>d. \<not> is_whitespace d) cs))"
  by pat_completeness auto
termination
  by (relation "measure length") (auto simp: le_imp_less_Suc length_dropWhile_le)

section \<open>Auxiliary definitions and example data\<close>

text \<open>\<open>plug k e\<close> puts the text \<open>e\<close> in the place of the placeholder \<open>k\<close>.\<close>

definition plug :: "string \<Rightarrow> string \<Rightarrow> segment \<Rightarrow> segment" where
  "plug k e seg = (case seg of Lit s \<Rightarrow> Lit s | Hole n \<Rightarrow> if n = k then Lit e else Hole n)"

text \<open>
  NFKC leaves ASCII text as it is; \<open>ascii_nfkc\<close> stands for it in the examples, whose
  URLs are ASCII.
\<close>

definition ascii_nfkc :: "string \<Rightarrow> string" where
  "ascii_nfkc s = s"

text \<open>A stream of notes, which has no \<^verbatim>\<open>since\<close> filter, and a stream scoped to groups.\<close>

definition notes_stream :: stream where
  "notes_stream =
     \<lparr>name = ''issue_notes'',
      path = Some ''/projects/{project_id}/issues/{issue_iid}/notes'',
      replication_key = Some ''updated_at'',
      bookmark_param_name = ''since'',
      extra_url_params = None,
      config = [(''private_token'', PStr ''secret'')],
      schema = [(''type'', PStr ''object''),
                (''properties'', PDict [(''id'', PDict []), (''project_id'', PDict []),
                                        (''updated_at'', PDict [])])]\<rparr>"

definition group_stream :: stream where
  "group_stream =
     \<lparr>name = ''group_milestones'',
      path = Some ''/groups/{group_id}/milestones'',
      replication_key = None,
      bookmark_param_name = ''since'',
      extra_url_params = None,
      config = [(''private_token'', PStr ''secret''), (''groups'', PStr ''10 20 30'')],
      schema = [(''type'', PStr ''object''),
                (''properties'', PDict [(''id'', PDict []), (''group_id'', PDict [])])]\<rparr>"

text \<open>A stream with two placeholders in its path, and a \<^verbatim>\<open>group_id\<close> setting of its own.\<close>

definition epic_issues_stream :: stream where
  "epic_issues_stream =
     group_stream\<lparr>path := Some ''/groups/{group_id}/epics/{epic_iid}/issues'',
                  config := [(''private_token'', PStr ''secret''), (''group_id'', PStr ''0'')]\<rparr>"

text \<open>
  What \<^verbatim>\<open>dateutil\<close>'s \<^verbatim>\<open>parse\<close> gives at the texts of the examples; the wall clock
  counts the microseconds from 1970-01-01T00:00:00. A timestamp in ISO 8601 gives its
  \<^verbatim>\<open>datetime\<close>, aware when the text ends in an offset. At \<^verbatim>\<open>2021-01-01+00:00:00\<close>
  the parser reads the date and then meets \<^verbatim>\<open>+\<close> before it has read a time: there
  \<^verbatim>\<open>+\<close> is neither the sign of an offset nor a token that it skips, and it raises
  \<^verbatim>\<open>ParserError\<close>. Other texts do not occur in the examples and count as rejected.
\<close>

definition example_parse :: "pyval \<Rightarrow> error + datetime" where
  "example_parse v =
     (case v of
        PStr s \<Rightarrow>
          (if s = ''2021-01-01T00:00:00+00:00''
             then Inr \<lparr>wall_clock = 1609459200000000, utcoffset = Some 0\<rparr>
           else if s = ''2020-12-31T23:00:00+00:00''
             then Inr \<lparr>wall_clock = 1609455600000000, utcoffset = Some 0\<rparr>
           else if s = ''2020-12-31T23:00:00''
             then Inr \<lparr>wall_clock = 1609455600000000, utcoffset = None\<rparr>
           else if s = ''2021-01-01+00:00:00''
             then Inl (LibraryError ''ParserError: Unknown string format: 2021-01-01+00:00:00'')
           else Inl (LibraryError ''ParserError''))
      | _ \<Rightarrow> Inl TypeError)"

section \<open>The response normalizer without a context\<close>

text \<open>
  Claim C10. When \<^verbatim>\<open>post_process\<close> is called with the context \<^verbatim>\<open>None\<close> and the
  framework's post-processing step returns a record, the method does not return the
  record: the assertion on the context fails.
\<close>

theorem post_process_requires_context:
  assumes "super_post_process row None = Some result"
  shows "post_process super_post_process self row None = Inl AssertionError"
  using assms by (simp add: post_process_def)

theorem post_process_requires_context_witness:
  "post_process (\<lambda>row context. Some row) group_stream [(''id'', PInt 5)] None = Inl AssertionError"
  using post_process_requires_context [of "\<lambda>row context. Some row" "[(''id'', PInt 5)]" "[(''id'', PInt 5)]" group_stream]
  by simp

section \<open>Native pagination\<close>

lemma headers_get_Some:
  assumes "distinct (map (str_lower \<circ> fst) hs)"
  shows "(headers_get hs key = Some v) = (\<exists>k. (k, v) \<in> set hs \<and> str_lower k = str_lower key)"
proof -
  have d: "distinct (map fst (map (\<lambda>kv. (str_lower (fst kv), snd kv)) hs))"
    using assms by (simp add: comp_def)
  have "(headers_get hs key = Some v)
        = ((str_lower key, v) \<in> set (map (\<lambda>kv. (str_lower (fst kv), snd kv)) hs))"
    unfolding headers_get_def using map_of_eq_Some_iff [OF d] by simp
  also have "\<dots> = (\<exists>k. (k, v) \<in> set hs \<and> str_lower k = str_lower key)"
    by force
  finally show ?thesis .
qed

lemma headers_get_None:
  "(headers_get hs key = None) = (\<forall>k v. (k, v) \<in> set hs \<longrightarrow> str_lower k \<noteq> str_lower key)"
  unfolding headers_get_def by (force simp: map_of_eq_None_iff)

lemma get_url_params_empty_token:
  "get_url_params is_ts start strm (Some []) = get_url_params is_ts start strm None"
  by (simp add: get_url_params_def truthy_def)

text \<open>
  Claim C4, as the code has it. The token of \<^verbatim>\<open>GitLabStream.get_next_page_token\<close> is
  the value of the \<^verbatim>\<open>X-Next-Page\<close> header whenever the response has that header
  (under any spelling of its case), and it is \<^verbatim>\<open>None\<close> exactly when the response has
  no such header. An empty header gives the empty token, not \<^verbatim>\<open>None\<close>; the empty
  token sets no \<^verbatim>\<open>page\<close> parameter, as \<^verbatim>\<open>None\<close> does.
\<close>

theorem native_next_page_token:
  assumes "distinct (map (str_lower \<circ> fst) (headers resp))"
  shows "(\<forall>k v. (k, v) \<in> set (headers resp) \<and> str_lower k = str_lower ''X-Next-Page''
            \<longrightarrow> get_next_page_token self resp previous_token = Some v)
       \<and> ((get_next_page_token self resp previous_token = None)
            = (\<forall>k v. (k, v) \<in> set (headers resp) \<longrightarrow> str_lower k \<noteq> str_lower ''X-Next-Page''))
       \<and> (get_next_page_token self resp previous_token = Some []
            \<longrightarrow> get_url_params is_ts start strm (get_next_page_token self resp previous_token)
                = get_url_params is_ts start strm None)"
proof (intro conjI allI impI)
  fix k v
  assume "(k, v) \<in> set (headers resp) \<and> str_lower k = str_lower ''X-Next-Page''"
  then show "get_next_page_token self resp previous_token = Some v"
    unfolding get_next_page_token_def using headers_get_Some [OF assms] by blast
next
  show "(get_next_page_token self resp previous_token = None)
        = (\<forall>k v. (k, v) \<in> set (headers resp) \<longrightarrow> str_lower k \<noteq> str_lower ''X-Next-Page'')"
    unfolding get_next_page_token_def by (rule headers_get_None)
next
  assume "get_next_page_token self resp previous_token = Some []"
  then show "get_url_params is_ts start strm (get_next_page_token self resp previous_token)
             = get_url_params is_ts start strm None"
    by (simp add: get_url_params_empty_token)
qed

lemma str_lower_next_page: "str_lower ''X-Next-Page'' = ''x-next-page''"
  by code_simp

lemma str_lower_content_type: "str_lower ''Content-Type'' = ''content-type''"
  by code_simp

theorem native_next_page_token_witness:
  "get_next_page_token group_stream
     \<lparr>headers = [(''Content-Type'', ''application/json''), (''X-Next-Page'', ''3'')],
      request_url = ''https://gitlab.com/api/v4/groups/10/milestones?page=2'',
      json = Inr (PList [])\<rparr> None = Some ''3''"
proof -
  let ?resp = "\<lparr>headers = [(''Content-Type'', ''application/json''), (''X-Next-Page'', ''3'')],
                request_url = ''https://gitlab.com/api/v4/groups/10/milestones?page=2'',
                json = Inr (PList [])\<rparr>"
  have d: "distinct (map (str_lower \<circ> fst) (headers ?resp))"
    by (simp add: str_lower_next_page str_lower_content_type)
  have "\<forall>k v. (k, v) \<in> set (headers ?resp) \<and> str_lower k = str_lower ''X-Next-Page''
          \<longrightarrow> get_next_page_token group_stream ?resp None = Some v"
    using native_next_page_token [OF d, of group_stream None] by (rule conjunct1)
  then have "(''X-Next-Page'', ''3'') \<in> set (headers ?resp) \<and> str_lower ''X-Next-Page'' = str_lower ''X-Next-Page''
          \<longrightarrow> get_next_page_token group_stream ?resp None = Some ''3''"
    by blast
  then show ?thesis by simp
qed

theorem native_next_page_token_empty_header:
  "get_next_page_token group_stream
     \<lparr>headers = [(''X-Next-Page'', '''')],
      request_url = ''https://gitlab.com/api/v4/groups/10/milestones?page=2'',
      json = Inr (PList [])\<rparr> None \<noteq> None"
  by (simp add: get_next_page_token_def headers_get_def)

section \<open>The REST base URL\<close>








lemma urlparse_gitlab_default:
  "urlparse nfkc ''https://gitlab.com/api/v4''
     = Inr \<lparr>url_scheme = ''https'', url_netloc = ''gitlab.com'', url_path = ''/api/v4'',
            url_query = [], url_fragment = []\<rparr>"
  by code_simp


lemma rstrip_slash_examples:
  "rstrip_slash ''https://gitlab.com'' = ''https://gitlab.com''"
  "rstrip_slash ''https://gitlab.com/'' = ''https://gitlab.com''"
  "rstrip_slash ''https://gitlab.com/api/v4'' = ''https://gitlab.com/api/v4''"
  "rstrip_slash ''https://[foo]'' = ''https://[foo]''"
  by (simp_all add: rstrip_slash_def)


section \<open>Emulated pagination\<close>

lemma cutoff_of_None_iff:
  "(cutoff_of bookmark ps = None) = (bookmark \<notin> fst ` set ps \<or> map_of ps bookmark = Some [])"
  by (auto simp: cutoff_of_def map_of_eq_None_iff split: option.splits list.splits
      dest: map_of_SomeD intro: rev_image_eqI)

lemma no_since_no_cutoff:
  assumes "urlparse nfkc (request_url resp) = Inr u"
      and "cutoff_of (bookmark_param_name self) (parse_qs (url_query u)) = None"
  shows "no_since_get_next_page_token nfkc parse self resp previous_token
           = Inr (get_next_page_token self resp previous_token)"
  using assms by (simp add: no_since_get_next_page_token_def)

lemma no_since_with_cutoff:
  assumes "urlparse nfkc (request_url resp) = Inr u"
      and "cutoff_of (bookmark_param_name self) (parse_qs (url_query u)) = Some cutoff"
  shows "no_since_get_next_page_token nfkc parse self resp previous_token
           = no_since_decision parse self resp previous_token cutoff"
  using assms by (simp add: no_since_get_next_page_token_def)

text \<open>
  Claim C3. When the bookmark parameter is not among the parsed query parameters of the
  request that was sent, or is there with an empty list of values (the lookup that
  raises \<^verbatim>\<open>IndexError\<close>), the cutoff is \<^verbatim>\<open>None\<close>, no error comes out of
  \<^verbatim>\<open>get_next_page_token\<close>, and its result is the token of the native method: the
  body of the response is not read. A dictionary in which the bookmark parameter has
  an empty list of values has no cutoff.
\<close>

theorem no_since_without_bookmark:
  assumes "urlparse nfkc (request_url resp) = Inr u"
      and "request_parameters = parse_qs (url_query u)"
      and "bookmark_param_name self \<notin> fst ` set request_parameters
           \<or> map_of request_parameters (bookmark_param_name self) = Some []"
  shows "cutoff_of (bookmark_param_name self) request_parameters = None
       \<and> no_since_get_next_page_token nfkc parse self resp previous_token
           = Inr (get_next_page_token self resp previous_token)
       \<and> cutoff_of bookmark (AList.update bookmark [] other_parameters) = None"
proof (intro conjI)
  show c: "cutoff_of (bookmark_param_name self) request_parameters = None"
    using assms(3) by (simp only: cutoff_of_None_iff)
  show "no_since_get_next_page_token nfkc parse self resp previous_token
           = Inr (get_next_page_token self resp previous_token)"
    using assms(1) c [unfolded assms(2)] by (rule no_since_no_cutoff)
  show "cutoff_of bookmark (AList.update bookmark [] other_parameters) = None"
    by (simp add: cutoff_of_def update_conv')
qed

lemma urlparse_notes_page:
  "urlparse nfkc ''https://gitlab.com/api/v4/projects/1/issues/7/notes?page=1&sort=asc''
     = Inr \<lparr>url_scheme = ''https'', url_netloc = ''gitlab.com'',
            url_path = ''/api/v4/projects/1/issues/7/notes'', url_query = ''page=1&sort=asc'',
            url_fragment = []\<rparr>"
  by code_simp

lemma parse_qs_notes_page: "parse_qs ''page=1&sort=asc'' = [(''page'', [''1'']), (''sort'', [''asc''])]"
  by code_simp

theorem no_since_without_bookmark_witness:
  "no_since_get_next_page_token ascii_nfkc example_parse notes_stream
     \<lparr>headers = [(''X-Next-Page'', ''2'')],
      request_url = ''https://gitlab.com/api/v4/projects/1/issues/7/notes?page=1&sort=asc'',
      json = Inl (LibraryError ''JSONDecodeError'')\<rparr> None = Inr (Some ''2'')"
proof -
  let ?resp = "\<lparr>headers = [(''X-Next-Page'', ''2'')],
      request_url = ''https://gitlab.com/api/v4/projects/1/issues/7/notes?page=1&sort=asc'',
      json = Inl (LibraryError ''JSONDecodeError'')\<rparr>"
  let ?u = "\<lparr>url_scheme = ''https'', url_netloc = ''gitlab.com'',
            url_path = ''/api/v4/projects/1/issues/7/notes'', url_query = ''page=1&sort=asc'',
            url_fragment = []\<rparr>"
  have 1: "urlparse ascii_nfkc (request_url ?resp) = Inr ?u" by (simp add: urlparse_notes_page)
  have 2: "[(''page'', [''1'']), (''sort'', [''asc''])] = parse_qs (url_query ?u)"
    by (simp add: parse_qs_notes_page)
  have 3: "bookmark_param_name notes_stream \<notin> fst ` set [(''page'', [''1'']), (''sort'', [''asc''])]
           \<or> map_of [(''page'', [''1'']), (''sort'', [''asc''])] (bookmark_param_name notes_stream) = Some []"
    by (simp add: notes_stream_def)
  have "no_since_get_next_page_token ascii_nfkc example_parse notes_stream ?resp None
          = Inr (get_next_page_token notes_stream ?resp None)"
    using no_since_without_bookmark [OF 1 2 3, of example_parse None] by blast
  then show ?thesis by (simp add: get_next_page_token_def headers_get_def)
qed

text \<open>
  Claim C1, as the code has it. An empty list in the body stops the pagination when the
  request that was sent carries a cutoff. Without a cutoff the body is not looked at, and
  the result is the token of the native method, whatever the body is.
\<close>

theorem no_since_empty_body:
  assumes "urlparse nfkc (request_url resp) = Inr u"
      and "json resp = Inr (PList [])"
  shows "no_since_get_next_page_token nfkc parse self resp previous_token
           = (case cutoff_of (bookmark_param_name self) (parse_qs (url_query u)) of
                Some cutoff \<Rightarrow> Inr None
              | None \<Rightarrow> Inr (get_next_page_token self resp previous_token))"
proof (cases "cutoff_of (bookmark_param_name self) (parse_qs (url_query u))")
  case None
  with assms(1) show ?thesis by (simp add: no_since_no_cutoff)
next
  case (Some cutoff)
  with assms show ?thesis
    by (simp add: no_since_with_cutoff no_since_decision_def py_len_def)
qed

lemma urlparse_notes_since:
  "urlparse nfkc ''https://gitlab.com/api/v4/projects/1/issues/7/notes?sort=asc&since=2021-01-01T00:00:00+00:00''
     = Inr \<lparr>url_scheme = ''https'', url_netloc = ''gitlab.com'',
            url_path = ''/api/v4/projects/1/issues/7/notes'',
            url_query = ''sort=asc&since=2021-01-01T00:00:00+00:00'', url_fragment = []\<rparr>"
  by code_simp

lemma parse_qs_notes_since:
  "parse_qs ''sort=asc&since=2021-01-01T00:00:00+00:00''
     = [(''sort'', [''asc'']), (''since'', [''2021-01-01T00:00:00 00:00''])]"
  by code_simp

lemma cutoff_notes_since:
  "cutoff_of ''since'' [(''sort'', [''asc'']), (''since'', [''2021-01-01T00:00:00 00:00''])]
     = Some ''2021-01-01T00:00:00+00:00''"
  by code_simp

theorem no_since_empty_body_witness:
  "no_since_get_next_page_token ascii_nfkc example_parse notes_stream
     \<lparr>headers = [(''X-Next-Page'', ''2'')],
      request_url = ''https://gitlab.com/api/v4/projects/1/issues/7/notes?sort=asc&since=2021-01-01T00:00:00+00:00'',
      json = Inr (PList [])\<rparr> None = Inr None"
proof -
  let ?resp = "\<lparr>headers = [(''X-Next-Page'', ''2'')],
      request_url = ''https://gitlab.com/api/v4/projects/1/issues/7/notes?sort=asc&since=2021-01-01T00:00:00+00:00'',
      json = Inr (PList [])\<rparr>"
  let ?u = "\<lparr>url_scheme = ''https'', url_netloc = ''gitlab.com'',
            url_path = ''/api/v4/projects/1/issues/7/notes'',
            url_query = ''sort=asc&since=2021-01-01T00:00:00+00:00'', url_fragment = []\<rparr>"
  have 1: "urlparse ascii_nfkc (request_url ?resp) = Inr ?u" by (simp add: urlparse_notes_since)
  have 2: "json ?resp = Inr (PList [])" by simp
  show ?thesis
    using no_since_empty_body [OF 1 2, of example_parse notes_stream None]
    by (simp add: notes_stream_def parse_qs_notes_since cutoff_notes_since)
qed

theorem no_since_empty_body_without_cutoff:
  "no_since_get_next_page_token ascii_nfkc example_parse notes_stream
     \<lparr>headers = [(''X-Next-Page'', ''2'')],
      request_url = ''https://gitlab.com/api/v4/projects/1/issues/7/notes?page=1&sort=asc'',
      json = Inr (PList [])\<rparr> None \<noteq> Inr None"
  by (simp add: no_since_get_next_page_token_def urlparse_notes_page parse_qs_notes_page
      notes_stream_def cutoff_of_def get_next_page_token_def headers_get_def)

text \<open>
  A query with \<^verbatim>\<open>since=2021-01-01+00:00:00\<close>: \<^verbatim>\<open>parse_qs\<close> reads the \<^verbatim>\<open>+\<close> as a
  space, and the code turns the space back into \<^verbatim>\<open>+\<close>, so that the text handed to
  \<^verbatim>\<open>parse\<close> as the cutoff is \<^verbatim>\<open>2021-01-01+00:00:00\<close>.
\<close>

lemma cutoff_of_plus_separated:
  "parse_qs ''page=1&since=2021-01-01+00:00:00''
     = [(''page'', [''1'']), (''since'', [''2021-01-01 00:00:00''])]
   \<and> cutoff_of ''since'' (parse_qs ''page=1&since=2021-01-01+00:00:00'')
     = Some ''2021-01-01+00:00:00''"
  by code_simp

text \<open>
  Claim C2, as the code has it. When the request that was sent carries a cutoff, the
  body is a list that is not empty, the last record has a value under the replication
  key, both that value and the cutoff parse to a \<^verbatim>\<open>datetime\<close>, and the one of the last
  record is strictly earlier than the one of the cutoff, then the result is \<^verbatim>\<open>None\<close>,
  whatever the \<^verbatim>\<open>X-Next-Page\<close> header says. The cutoff is the text of the query with
  every space turned back into \<^verbatim>\<open>+\<close>: a cutoff written with \<^verbatim>\<open>+\<close> between the date
  and the time does not parse, and the error of the parser comes out instead.
\<close>

theorem no_since_stops_before_cutoff:
  assumes "urlparse nfkc (request_url resp) = Inr u"
      and "cutoff_of (bookmark_param_name self) (parse_qs (url_query u)) = Some cutoff"
      and "json resp = Inr (PList records)"
      and "records \<noteq> []"
      and "py_getitem_key (last records) (replication_key self) = Inr v"
      and "parse v = Inr t_last"
      and "parse (PStr cutoff) = Inr t_cutoff"
      and "datetime_less t_last t_cutoff = Inr True"
  shows "no_since_get_next_page_token nfkc parse self resp previous_token = Inr None"
proof -
  have "no_since_get_next_page_token nfkc parse self resp previous_token
          = no_since_decision parse self resp previous_token cutoff"
    using assms(1,2) by (rule no_since_with_cutoff)
  also have "\<dots> = Inr None"
    using assms(3-8) by (simp add: no_since_decision_def py_len_def py_getitem_last_def)
  finally show ?thesis .
qed

theorem no_since_stops_before_cutoff_witness:
  "no_since_get_next_page_token ascii_nfkc example_parse notes_stream
     \<lparr>headers = [(''X-Next-Page'', ''2'')],
      request_url = ''https://gitlab.com/api/v4/projects/1/issues/7/notes?sort=asc&since=2021-01-01T00:00:00+00:00'',
      json = Inr (PList [PDict [(''id'', PInt 1), (''updated_at'', PStr ''2020-12-30T08:15:00+00:00'')],
                         PDict [(''id'', PInt 2), (''updated_at'', PStr ''2020-12-31T23:00:00+00:00'')]])\<rparr>
     None = Inr None"
proof -
  let ?records = "[PDict [(''id'', PInt 1), (''updated_at'', PStr ''2020-12-30T08:15:00+00:00'')],
                   PDict [(''id'', PInt 2), (''updated_at'', PStr ''2020-12-31T23:00:00+00:00'')]]"
  let ?resp = "\<lparr>headers = [(''X-Next-Page'', ''2'')],
      request_url = ''https://gitlab.com/api/v4/projects/1/issues/7/notes?sort=asc&since=2021-01-01T00:00:00+00:00'',
      json = Inr (PList ?records)\<rparr>"
  let ?u = "\<lparr>url_scheme = ''https'', url_netloc = ''gitlab.com'',
            url_path = ''/api/v4/projects/1/issues/7/notes'',
            url_query = ''sort=asc&since=2021-01-01T00:00:00+00:00'', url_fragment = []\<rparr>"
  let ?t_last = "\<lparr>wall_clock = 1609455600000000, utcoffset = Some 0\<rparr>"
  let ?t_cutoff = "\<lparr>wall_clock = 1609459200000000, utcoffset = Some 0\<rparr>"
  have 1: "urlparse ascii_nfkc (request_url ?resp) = Inr ?u" by (simp add: urlparse_notes_since)
  have 2: "cutoff_of (bookmark_param_name notes_stream) (parse_qs (url_query ?u))
             = Some ''2021-01-01T00:00:00+00:00''"
    by (simp add: notes_stream_def parse_qs_notes_since cutoff_notes_since)
  have 3: "json ?resp = Inr (PList ?records)" by simp
  have 4: "?records \<noteq> []" by simp
  have 5: "py_getitem_key (last ?records) (replication_key notes_stream)
             = Inr (PStr ''2020-12-31T23:00:00+00:00'')"
    by (simp add: py_getitem_key_def notes_stream_def)
  have 6: "example_parse (PStr ''2020-12-31T23:00:00+00:00'') = Inr ?t_last"
    by (simp add: example_parse_def)
  have 7: "example_parse (PStr ''2021-01-01T00:00:00+00:00'') = Inr ?t_cutoff"
    by (simp add: example_parse_def)
  have 8: "datetime_less ?t_last ?t_cutoff = Inr True"
    by (simp add: datetime_less_def)
  show ?thesis
    by (rule no_since_stops_before_cutoff [OF 1 2 3 4 5 6 7 8])
qed

theorem no_since_plus_separated_cutoff:
  "no_since_get_next_page_token ascii_nfkc example_parse notes_stream
     \<lparr>headers = [(''X-Next-Page'', ''2'')],
      request_url = ''https://gitlab.com/api/v4/projects/1/issues/7/notes?page=1&since=2021-01-01+00:00:00'',
      json = Inr (PList [PDict [(''id'', PInt 2), (''updated_at'', PStr ''2020-12-31T23:00:00'')]])\<rparr>
     None
   = Inl (LibraryError ''ParserError: Unknown string format: 2021-01-01+00:00:00'')"
  by code_simp

section \<open>The response normalizer\<close>

lemma post_process_loop_dict:
  assumes "schema_properties sch = PDict props"
  shows "\<exists>r. post_process_loop sch items result = Inr r
           \<and> (\<forall>k. map_of r k =
                 (case map_of result k of
                    Some v \<Rightarrow> Some v
                  | None \<Rightarrow> if k \<in> fst ` set props then map_of items k else None))"
proof (induction items arbitrary: result)
  case Nil
  then show ?case by (simp split: option.splits)
next
  case (Cons kv items)
  obtain key val where kv: "kv = (key, val)" by (cases kv)
  show ?case
  proof (cases "key \<in> fst ` set props \<and> key \<notin> fst ` set result")
    case True
    from Cons.IH [of "AList.update key val result"] obtain r where
      r: "post_process_loop sch items (AList.update key val result) = Inr r"
      and m: "\<forall>k. map_of r k =
                 (case map_of (AList.update key val result) k of
                    Some v \<Rightarrow> Some v
                  | None \<Rightarrow> if k \<in> fst ` set props then map_of items k else None)"
      by blast
    from True have absent: "map_of result key = None" by (simp add: map_of_eq_None_iff)
    have "post_process_loop sch (kv # items) result = Inr r"
      using True r kv assms by (simp add: py_contains_def)
    moreover have "\<forall>k. map_of r k =
                 (case map_of result k of
                    Some v \<Rightarrow> Some v
                  | None \<Rightarrow> if k \<in> fst ` set props then map_of (kv # items) k else None)"
      using m True absent kv by (auto simp: update_conv' split: option.splits)
    ultimately show ?thesis by blast
  next
    case False
    from Cons.IH [of result] obtain r where
      r: "post_process_loop sch items result = Inr r"
      and m: "\<forall>k. map_of r k =
                 (case map_of result k of
                    Some v \<Rightarrow> Some v
                  | None \<Rightarrow> if k \<in> fst ` set props then map_of items k else None)"
      by blast
    have "post_process_loop sch (kv # items) result = Inr r"
      using False r kv assms by (auto simp: py_contains_def)
    moreover have "\<forall>k. map_of r k =
                 (case map_of result k of
                    Some v \<Rightarrow> Some v
                  | None \<Rightarrow> if k \<in> fst ` set props then map_of (kv # items) k else None)"
    proof
      fix k
      show "map_of r k =
                 (case map_of result k of
                    Some v \<Rightarrow> Some v
                  | None \<Rightarrow> if k \<in> fst ` set props then map_of (kv # items) k else None)"
      proof (cases "map_of result k")
        case None
        then have "k \<notin> fst ` set result" by (simp add: map_of_eq_None_iff)
        with False have "k \<in> fst ` set props \<Longrightarrow> k \<noteq> key" by blast
        with None m kv show ?thesis by simp
      next
        case (Some v)
        with m show ?thesis by simp
      qed
    qed
    ultimately show ?thesis by blast
  qed
qed

text \<open>
  Claim C8. For a record that the framework's step keeps and a context that is not
  \<^verbatim>\<open>None\<close>, with the schema's \<^verbatim>\<open>properties\<close> a dictionary (or missing, which counts
  as the empty one), \<^verbatim>\<open>post_process\<close> returns a record in which every key of the kept
  record has the value it had, and a key that the kept record lacks has the context's
  value when the schema declares the key and the context has it, and is absent otherwise.
\<close>

theorem post_process_fills_missing:
  assumes "super_post_process row (Some context) = Some result"
      and "schema_properties (schema self) = PDict props"
  shows "\<exists>r. post_process super_post_process self row (Some context) = Inr (Some r)
           \<and> (\<forall>k. map_of r k =
                 (case map_of result k of
                    Some v \<Rightarrow> Some v
                  | None \<Rightarrow> if k \<in> fst ` set props then map_of context k else None))"
proof -
  from post_process_loop_dict [OF assms(2), of "context" result] obtain r where
    "post_process_loop (schema self) context result = Inr r"
    and m: "\<forall>k. map_of r k =
                 (case map_of result k of
                    Some v \<Rightarrow> Some v
                  | None \<Rightarrow> if k \<in> fst ` set props then map_of context k else None)"
    by blast
  then have "post_process super_post_process self row (Some context) = Inr (Some r)"
    using assms(1) by (simp add: post_process_def)
  with m show ?thesis by blast
qed

lemma group_stream_properties:
  "schema_properties (schema group_stream) = PDict [(''id'', PDict []), (''group_id'', PDict [])]"
  by (simp add: schema_properties_def group_stream_def)

theorem post_process_fills_missing_witness:
  "post_process (\<lambda>row context. Some row) group_stream [(''id'', PInt 5)]
       (Some [(''group_id'', PStr ''20''), (''page'', PInt 3)])
     = Inr (Some [(''id'', PInt 5), (''group_id'', PStr ''20'')])
   \<and> post_process (\<lambda>row context. Some row) group_stream [(''id'', PInt 5), (''group_id'', PStr ''7'')]
       (Some [(''group_id'', PStr ''20'')])
     = Inr (Some [(''id'', PInt 5), (''group_id'', PStr ''7'')])
   \<and> (\<exists>r. post_process (\<lambda>row context. Some row) group_stream [(''id'', PInt 5)]
             (Some [(''group_id'', PStr ''20''), (''page'', PInt 3)]) = Inr (Some r)
           \<and> map_of r ''id'' = Some (PInt 5) \<and> map_of r ''group_id'' = Some (PStr ''20'')
           \<and> map_of r ''page'' = None)"
proof (intro conjI)
  show "post_process (\<lambda>row context. Some row) group_stream [(''id'', PInt 5)]
       (Some [(''group_id'', PStr ''20''), (''page'', PInt 3)])
     = Inr (Some [(''id'', PInt 5), (''group_id'', PStr ''20'')])"
    by (simp add: post_process_def group_stream_properties py_contains_def)
  show "post_process (\<lambda>row context. Some row) group_stream [(''id'', PInt 5), (''group_id'', PStr ''7'')]
       (Some [(''group_id'', PStr ''20'')])
     = Inr (Some [(''id'', PInt 5), (''group_id'', PStr ''7'')])"
    by (simp add: post_process_def group_stream_properties py_contains_def)
  have "(\<lambda>row context. Some row) [(''id'', PInt 5)] (Some [(''group_id'', PStr ''20''), (''page'', PInt 3)])
          = Some [(''id'', PInt 5)]" by simp
  from post_process_fills_missing [of "\<lambda>row context. Some row", OF this group_stream_properties]
  obtain r where r: "post_process (\<lambda>row context. Some row) group_stream [(''id'', PInt 5)]
             (Some [(''group_id'', PStr ''20''), (''page'', PInt 3)]) = Inr (Some r)"
    and m: "\<forall>k. map_of r k =
                 (case map_of [(''id'', PInt 5)] k of
                    Some v \<Rightarrow> Some v
                  | None \<Rightarrow> if k \<in> fst ` set [(''id'', PDict []), (''group_id'', PDict [])]
                            then map_of [(''group_id'', PStr ''20''), (''page'', PInt 3)] k else None)"
    by blast
  from m have "map_of r ''id'' = Some (PInt 5)" "map_of r ''group_id'' = Some (PStr ''20'')"
    "map_of r ''page'' = None" by simp_all
  with r show "\<exists>r. post_process (\<lambda>row context. Some row) group_stream [(''id'', PInt 5)]
             (Some [(''group_id'', PStr ''20''), (''page'', PInt 3)]) = Inr (Some r)
           \<and> map_of r ''id'' = Some (PInt 5) \<and> map_of r ''group_id'' = Some (PStr ''20'')
           \<and> map_of r ''page'' = None" by blast
qed

section \<open>The partition provider\<close>

lemma str_split_no_sep: "sep \<notin> set x \<Longrightarrow> str_split sep x = [x]"
  by (induction x) auto

lemma str_split_field: "sep \<notin> set x \<Longrightarrow> str_split sep (x @ sep # rest) = x # str_split sep rest"
  by (induction x) auto

lemma str_split_join:
  "ids \<noteq> [] \<Longrightarrow> \<forall>i \<in> set ids. sep \<notin> set i \<Longrightarrow> str_split sep (str_join [sep] ids) = ids"
  by (induction "[sep]" ids rule: str_join.induct) (simp_all add: str_split_no_sep str_split_field)

text \<open>
  Claim C6, as the code has it. For a stream whose path has the placeholder
  \<^verbatim>\<open>{group_id}\<close> and whose \<^verbatim>\<open>groups\<close> setting is a list of identifiers without
  spaces, joined by one space each, \<^verbatim>\<open>partitions\<close> is the list of one context per
  identifier, in order. The setting is split at every single space; other whitespace
  does not separate, and two spaces in a row enclose an empty identifier.
\<close>

theorem partitions_one_per_group:
  assumes "path self = Some p"
      and "str_contains ''{group_id}'' p"
      and "map_of (config self) ''groups'' = Some (PStr (str_join '' '' ids))"
      and "ids \<noteq> []"
      and "\<forall>i \<in> set ids. CHR '' '' \<notin> set i"
  shows "partitions self = Inr (map (\<lambda>i. [(''group_id'', PStr i)]) ids)"
  using assms by (simp add: partitions_def str_split_join)

lemma contains_group_id: "str_contains ''{group_id}'' ''/groups/{group_id}/milestones''"
  by code_simp

theorem partitions_one_per_group_witness:
  "partitions group_stream
     = Inr [ [(''group_id'', PStr ''10'')], [(''group_id'', PStr ''20'')], [(''group_id'', PStr ''30'')]]"
proof -
  have 1: "path group_stream = Some ''/groups/{group_id}/milestones''"
    by (simp add: group_stream_def)
  have 3: "map_of (config group_stream) ''groups'' = Some (PStr (str_join '' '' [''10'', ''20'', ''30'']))"
    by (simp add: group_stream_def)
  have 4: "[''10'', ''20'', ''30''] \<noteq> []" by simp
  have 5: "\<forall>i \<in> set [''10'', ''20'', ''30'']. CHR '' '' \<notin> set i" by simp
  show ?thesis
    using partitions_one_per_group [OF 1 contains_group_id 3 4 5] by simp
qed

theorem partitions_two_spaces:
  "split_whitespace ''10  20'' = [''10'', ''20'']
   \<and> partitions (group_stream\<lparr>config := [(''groups'', PStr ''10  20'')]\<rparr>)
       = Inr [ [(''group_id'', PStr ''10'')], [(''group_id'', PStr '''')], [(''group_id'', PStr ''20'')]]"
proof
  show "split_whitespace ''10  20'' = [''10'', ''20'']"
    by (simp add: is_whitespace_def)
  show "partitions (group_stream\<lparr>config := [(''groups'', PStr ''10  20'')]\<rparr>)
       = Inr [ [(''group_id'', PStr ''10'')], [(''group_id'', PStr '''')], [(''group_id'', PStr ''20'')]]"
    by (simp add: partitions_def group_stream_def contains_group_id)
qed

text \<open>
  Claim C7, as the code has it. For a stream with a path, \<^verbatim>\<open>partitions\<close> raises a
  \<^verbatim>\<open>ValueError\<close> in exactly two situations: the path has the placeholder
  \<^verbatim>\<open>{group_id}\<close> and there is no \<^verbatim>\<open>groups\<close> setting, and the path does not have the
  placeholder \<^verbatim>\<open>{group_id}\<close>, whether or not it has a placeholder for a project. The
  message names the stream and tells the two situations apart. \<^verbatim>\<open>partitions\<close> reads
  the attributes of the stream only; no response is among its arguments.
\<close>

theorem partitions_configuration_errors:
  assumes "path self = Some p"
  shows "((\<exists>msg. partitions self = Inl (ValueError msg))
            = ((str_contains ''{group_id}'' p \<and> ''groups'' \<notin> fst ` set (config self))
               \<or> \<not> str_contains ''{group_id}'' p))
       \<and> (str_contains ''{group_id}'' p \<and> ''groups'' \<notin> fst ` set (config self)
            \<longrightarrow> partitions self = Inl (ValueError (missing_groups_message (name self))))
       \<and> (\<not> str_contains ''{group_id}'' p
            \<longrightarrow> partitions self = Inl (ValueError (no_partition_type_message (name self) p)))"
proof (cases "str_contains ''{group_id}'' p")
  case False
  with assms show ?thesis by (simp add: partitions_def)
next
  case True
  show ?thesis
  proof (cases "map_of (config self) ''groups''")
    case None
    then have "''groups'' \<notin> fst ` set (config self)" by (simp add: map_of_eq_None_iff)
    with None True assms show ?thesis by (simp add: partitions_def)
  next
    case (Some v)
    then have "''groups'' \<in> fst ` set (config self)"
      by (metis map_of_eq_None_iff option.distinct(1))
    with Some True assms show ?thesis
      by (cases v) (simp_all add: partitions_def)
  qed
qed

lemma contains_no_group_id: "\<not> str_contains ''{group_id}'' ''/version''"
  by code_simp

theorem partitions_configuration_errors_witness:
  "partitions (group_stream\<lparr>config := [(''private_token'', PStr ''secret'')]\<rparr>)
     = Inl (ValueError (missing_groups_message ''group_milestones''))
   \<and> partitions (group_stream\<lparr>path := Some ''/version''\<rparr>)
     = Inl (ValueError (no_partition_type_message ''group_milestones'' ''/version''))"
proof
  have 1: "path (group_stream\<lparr>config := [(''private_token'', PStr ''secret'')]\<rparr>)
             = Some ''/groups/{group_id}/milestones''"
    by (simp add: group_stream_def)
  show "partitions (group_stream\<lparr>config := [(''private_token'', PStr ''secret'')]\<rparr>)
     = Inl (ValueError (missing_groups_message ''group_milestones''))"
    using partitions_configuration_errors [OF 1] contains_group_id
    by (simp add: group_stream_def)
  have 2: "path (group_stream\<lparr>path := Some ''/version''\<rparr>) = Some ''/version''"
    by simp
  show "partitions (group_stream\<lparr>path := Some ''/version''\<rparr>)
     = Inl (ValueError (no_partition_type_message ''group_milestones'' ''/version''))"
    using partitions_configuration_errors [OF 2] contains_no_group_id
    by (simp add: group_stream_def)
qed

lemma contains_project_path: "str_contains ''{project_path}'' ''/projects/{project_path}/issues''"
  by code_simp

lemma project_path_no_group_id: "\<not> str_contains ''{group_id}'' ''/projects/{project_path}/issues''"
  by code_simp

theorem partitions_project_path_error:
  "str_contains ''{project_path}'' ''/projects/{project_path}/issues''
   \<and> map_of (config group_stream) ''groups'' = Some (PStr ''10 20 30'')
   \<and> partitions (group_stream\<lparr>path := Some ''/projects/{project_path}/issues''\<rparr>)
       = Inl (ValueError (no_partition_type_message ''group_milestones'' ''/projects/{project_path}/issues''))"
  by (simp add: contains_project_path project_path_no_group_id partitions_def group_stream_def)

section \<open>The URL resolver\<close>

lemma plug_simps:
  "plug k e (Lit s) = Lit s"
  "plug k e (Hole n) = (if n = k then Lit e else Hole n)"
  by (simp_all add: plug_def)

lemma render_simps:
  "render [] = []"
  "render (seg # segs) = render_segment seg @ render segs"
  "render_segment (Lit s) = s"
  "render_segment (Hole n) = CHR ''{'' # n @ ''}''"
  by (simp_all add: render_def render_segment_def)

lemma hex_digit_upper_mem: "hex_digit_upper n \<in> set ''0123456789ABCDEF''"
  unfolding hex_digit_upper_def by (rule nth_mem) simp

lemma hex_digit_upper_no_brace:
  "hex_digit_upper n \<noteq> CHR ''{''" "hex_digit_upper n \<noteq> CHR ''}''"
  "CHR ''{'' \<noteq> hex_digit_upper n" "CHR ''}'' \<noteq> hex_digit_upper n"
  using hex_digit_upper_mem [of n] by auto

lemma brace_free_quote_byte: "brace_free (quote_byte c)"
  by (auto simp: brace_free_def quote_byte_def always_safe_def ascii_upper_def ascii_lower_def
      ascii_digits_def hex_digit_upper_no_brace)

lemma brace_free_quote_plus: "brace_free (quote_plus s)"
  using brace_free_quote_byte by (induction s) (auto simp: quote_plus_def brace_free_def)

lemma brace_free_url_encode: "brace_free (url_encode v)"
  by (simp add: url_encode_def brace_free_quote_plus)

lemma str_replace_skip:
  "CHR ''{'' \<notin> set s \<Longrightarrow> str_replace (s @ rest) (CHR ''{'' # old) new = s @ str_replace rest (CHR ''{'' # old) new"
  by (induction s) auto

lemma str_replace_hit:
  "str_replace (CHR ''{'' # k @ CHR ''}'' # rest) (CHR ''{'' # k @ [CHR ''}'']) new
     = new @ str_replace rest (CHR ''{'' # k @ [CHR ''}'']) new"
  by simp

lemma takeWhile_upto_brace:
  "CHR ''}'' \<notin> set n \<Longrightarrow> takeWhile (\<lambda>c. c \<noteq> CHR ''}'') (n @ CHR ''}'' # rest) = n"
  by (induction n) auto

lemma prefix_name_eq:
  assumes "CHR ''}'' \<notin> set k" "CHR ''}'' \<notin> set n" "prefix (k @ [CHR ''}'']) (n @ CHR ''}'' # rest)"
  shows "k = n"
proof -
  from assms(3) obtain zs where eq: "n @ CHR ''}'' # rest = k @ CHR ''}'' # zs"
    by (auto simp: prefix_def)
  have "takeWhile (\<lambda>c. c \<noteq> CHR ''}'') (n @ CHR ''}'' # rest) = n"
    using assms(2) by (rule takeWhile_upto_brace)
  moreover have "takeWhile (\<lambda>c. c \<noteq> CHR ''}'') (k @ CHR ''}'' # zs) = k"
    using assms(1) by (rule takeWhile_upto_brace)
  ultimately show ?thesis using eq by simp
qed

lemma str_replace_miss:
  assumes "brace_free k" "brace_free n" "n \<noteq> k"
  shows "str_replace (CHR ''{'' # n @ CHR ''}'' # rest) (CHR ''{'' # k @ [CHR ''}'']) new
     = CHR ''{'' # n @ CHR ''}'' # str_replace rest (CHR ''{'' # k @ [CHR ''}'']) new"
proof -
  have np: "\<not> prefix (k @ [CHR ''}'']) (n @ CHR ''}'' # rest)"
    using prefix_name_eq [of k n rest] assms by (auto simp: brace_free_def)
  have "CHR ''{'' \<notin> set (n @ [CHR ''}''])" using assms(2) by (simp add: brace_free_def)
  from str_replace_skip [OF this, of rest "k @ [CHR ''}'']" new]
  show ?thesis using np by simp
qed

lemma str_replace_render:
  assumes "brace_free k" "flat_template segs"
  shows "str_replace (render segs) (CHR ''{'' # k @ ''}'') new = render (map (plug k new) segs)"
  using assms(2)
proof (induction segs)
  case Nil
  then show ?case by (simp add: render_simps)
next
  case (Cons seg segs)
  then have IH: "str_replace (render segs) (CHR ''{'' # k @ ''}'') new = render (map (plug k new) segs)"
    and fl: "flat_segment seg" by (simp_all add: flat_template_def)
  show ?case
  proof (cases seg)
    case (Lit s)
    with fl have "CHR ''{'' \<notin> set s" by (simp add: flat_segment_def)
    from str_replace_skip [OF this, of "render segs" "k @ ''}''" new] IH Lit
    show ?thesis by (simp add: render_simps plug_simps)
  next
    case (Hole n)
    with fl have bn: "brace_free n" by (simp add: flat_segment_def)
    show ?thesis
    proof (cases "n = k")
      case True
      with Hole IH str_replace_hit [of k "render segs" new] show ?thesis
        by (simp add: render_simps plug_simps)
    next
      case False
      with Hole IH str_replace_miss [OF assms(1) bn False, of "render segs" new] show ?thesis
        by (simp add: render_simps plug_simps)
    qed
  qed
qed

lemma str_replace_absent:
  "old \<noteq> [] \<Longrightarrow> \<not> str_contains old s \<Longrightarrow> str_replace s old new = s"
  by (induction s) auto

lemma flat_plug: "CHR ''{'' \<notin> set e \<Longrightarrow> flat_template segs \<Longrightarrow> flat_template (map (plug k e) segs)"
  by (induction segs) (auto simp: flat_template_def flat_segment_def plug_def split: segment.splits)

lemma fill_plug:
  "fill (map_of items) (map (plug k (url_encode v)) segs) = fill (map_of ((k, v) # items)) segs"
proof -
  have "fill_segment (map_of items) (plug k (url_encode v) seg) = fill_segment (map_of ((k, v) # items)) seg" for seg
    by (cases seg) (simp_all add: fill_segment_def plug_simps)
  then have "fill_segment (map_of items) \<circ> plug k (url_encode v) = fill_segment (map_of ((k, v) # items))"
    by (simp add: fun_eq_iff)
  then show ?thesis by (simp add: fill_def)
qed

lemma fill_empty: "fill Map.empty segs = render segs"
  by (induction segs) (simp_all add: fill_def render_def fill_segment_def render_segment_def split: segment.splits)

lemma get_url_loop_step:
  "get_url_loop ((k, v) # items) url = get_url_loop items (str_replace url (CHR ''{'' # k @ ''}'') (url_encode v))"
  using str_replace_absent [of "CHR ''{'' # k @ ''}''" url "url_encode v"] by (simp add: Let_def)

lemma get_url_loop_fill:
  "flat_template segs \<Longrightarrow> \<forall>k \<in> fst ` set items. brace_free k \<Longrightarrow>
   get_url_loop items (render segs) = fill (map_of items) segs"
proof (induction items arbitrary: segs)
  case Nil
  then show ?case by (simp add: fill_empty)
next
  case (Cons kv items)
  obtain k v where kv: "kv = (k, v)" by (cases kv)
  from Cons.prems kv have bk: "brace_free k" and rest: "\<forall>k \<in> fst ` set items. brace_free k" by auto
  have "CHR ''{'' \<notin> set (url_encode v)"
    using brace_free_url_encode [of v] by (simp add: brace_free_def)
  then have fl: "flat_template (map (plug k (url_encode v)) segs)"
    using Cons.prems(1) by (rule flat_plug)
  have "get_url_loop (kv # items) (render segs)
        = get_url_loop items (render (map (plug k (url_encode v)) segs))"
    using kv str_replace_render [OF bk Cons.prems(1)] by (simp only: get_url_loop_step)
  also have "\<dots> = fill (map_of items) (map (plug k (url_encode v)) segs)"
    using fl rest by (rule Cons.IH)
  also have "\<dots> = fill (map_of (kv # items)) segs"
    using kv by (simp only: fill_plug)
  finally show ?case .
qed

lemma map_of_dict_update:
  "map_of (dict_update vals other) = map_of vals ++ map_of (rev other)"
proof (induction other arbitrary: vals)
  case Nil
  then show ?case by (simp add: dict_update_def)
next
  case (Cons kv other)
  have "map_of (dict_update vals (kv # other)) = map_of (dict_update (AList.update (fst kv) (snd kv) vals) other)"
    by (simp add: dict_update_def)
  also have "\<dots> = map_of (AList.update (fst kv) (snd kv) vals) ++ map_of (rev other)"
    by (rule Cons.IH)
  also have "\<dots> = map_of vals ++ map_of (rev (kv # other))"
    by (cases kv) (simp add: update_conv' map_add_upd_left fun_eq_iff map_add_def split: option.splits)
  finally show ?case .
qed

lemma map_of_rev_distinct: "distinct (map fst xs) \<Longrightarrow> map_of (rev xs) = map_of xs"
  by (metis distinct_rev map_of_inject_set rev_map set_rev)

lemma keys_dict_update: "fst ` set (dict_update vals other) = fst ` set vals \<union> fst ` set other"
  by (induction other arbitrary: vals) (auto simp: dict_update_def dom_update)

lemma fill_Lit: "fill m (Lit s # segs) = s @ fill m segs"
  by (simp add: fill_def fill_segment_def)

text \<open>
  Claim C5, as the code has it. Let the base URL have no opening brace, the path be a
  flat template (placeholders \<^verbatim>\<open>{name}\<close> with names free of braces, none inside
  another, and literal text that opens no brace), the keys of the configuration and of
  the context be free of braces, and the keys of the context be distinct, as those of a
  dictionary are. Then \<^verbatim>\<open>get_url\<close> is the base URL followed by the path in which every
  placeholder with a key in the merged lookup (the configuration overlaid by the
  context) is replaced by the URL-encoded string of its value, and every other
  placeholder is left as it is written.
\<close>

theorem get_url_fills_placeholders:
  assumes "url_base nfkc self = Inr base"
      and "CHR ''{'' \<notin> set base"
      and "(case path self of None \<Rightarrow> [] | Some p \<Rightarrow> p) = render segs"
      and "flat_template segs"
      and "ctx = (case context of None \<Rightarrow> [] | Some c \<Rightarrow> c)"
      and "distinct (map fst ctx)"
      and "\<forall>k \<in> fst ` set (config self) \<union> fst ` set ctx. brace_free k"
  shows "get_url nfkc self context = Inr (base @ fill (map_of (config self) ++ map_of ctx) segs)"
proof -
  let ?vals = "dict_update (config self) ctx"
  have url: "base @ render segs = render (Lit base # segs)"
    by (simp add: render_simps)
  have fl: "flat_template (Lit base # segs)"
    using assms(2,4) by (simp add: flat_template_def flat_segment_def)
  have keys: "\<forall>k \<in> fst ` set ?vals. brace_free k"
    using assms(7) by (simp add: keys_dict_update)
  have m: "map_of ?vals = map_of (config self) ++ map_of ctx"
    using assms(6) by (simp add: map_of_dict_update map_of_rev_distinct)
  have "get_url nfkc self context = Inr (get_url_loop ?vals (base @ render segs))"
    using assms(1,3,5) by (simp add: get_url_def)
  also have "get_url_loop ?vals (base @ render segs) = fill (map_of ?vals) (Lit base # segs)"
    unfolding url using fl keys by (rule get_url_loop_fill)
  also have "\<dots> = base @ fill (map_of (config self) ++ map_of ctx) segs"
    by (simp only: m fill_Lit)
  finally show ?thesis .
qed

lemma url_base_epic_issues: "url_base nfkc epic_issues_stream = Inr ''https://gitlab.com/api/v4''"
  by (simp add: url_base_def epic_issues_stream_def group_stream_def DEFAULT_REST_API_URL_def
      rstrip_slash_examples urlparse_gitlab_default)

lemma url_encode_example: "url_encode (PStr ''a b/c'') = ''a+b%2Fc''"
  by code_simp

theorem get_url_fills_placeholders_witness:
  "get_url ascii_nfkc epic_issues_stream (Some [(''group_id'', PStr ''a b/c'')])
     = Inr ''https://gitlab.com/api/v4/groups/a+b%2Fc/epics/{epic_iid}/issues''"
proof -
  let ?segs = "[Lit ''/groups/'', Hole ''group_id'', Lit ''/epics/'', Hole ''epic_iid'', Lit ''/issues'']"
  let ?ctx = "[(''group_id'', PStr ''a b/c'')]"
  have 2: "CHR ''{'' \<notin> set ''https://gitlab.com/api/v4''" by simp
  have 3: "(case path epic_issues_stream of None \<Rightarrow> [] | Some p \<Rightarrow> p) = render ?segs"
    by (simp add: epic_issues_stream_def render_simps)
  have 4: "flat_template ?segs"
    by (simp add: flat_template_def flat_segment_def brace_free_def)
  have 5: "?ctx = (case Some ?ctx of None \<Rightarrow> [] | Some c \<Rightarrow> c)" by simp
  have 6: "distinct (map fst ?ctx)" by simp
  have 7: "\<forall>k \<in> fst ` set (config epic_issues_stream) \<union> fst ` set ?ctx. brace_free k"
    by (simp add: epic_issues_stream_def brace_free_def)
  show ?thesis
    using get_url_fills_placeholders [OF url_base_epic_issues 2 3 4 5 6 7]
    by (simp add: epic_issues_stream_def fill_def fill_segment_def url_encode_example)
qed

theorem get_url_sequential_replacement:
  "get_url ascii_nfkc (group_stream\<lparr>path := Some ''/{a}{b}'',
                          config := [(''a}{b'', PStr ''Z''), (''a'', PStr ''1''), (''b'', PStr ''2'')]\<rparr>) None
     = Inr ''https://gitlab.com/api/v4/Z''
   \<and> render [Lit ''/'', Hole ''a'', Hole ''b''] = ''/{a}{b}''
   \<and> fill (map_of [(''a}{b'', PStr ''Z''), (''a'', PStr ''1''), (''b'', PStr ''2'')])
        [Lit ''/'', Hole ''a'', Hole ''b''] = ''/12''
   \<and> get_url ascii_nfkc (group_stream\<lparr>path := Some ''/{a{b}c}'',
                            config := [(''b'', PStr ''x''), (''axc'', PStr ''y'')]\<rparr>) None
     = Inr ''https://gitlab.com/api/v4/y''
   \<and> render [Lit ''/{a'', Hole ''b'', Lit ''c}''] = ''/{a{b}c}''
   \<and> fill (map_of [(''b'', PStr ''x''), (''axc'', PStr ''y'')])
        [Lit ''/{a'', Hole ''b'', Lit ''c}''] = ''/{axc}''"
  by code_simp

end
